theory Spec2Isabelle
  imports Complex_Main
begin

section \<open>Python values the buffers rely on\<close>

text \<open>
  The exceptions the modelled code can raise. A method that mutates \<open>self\<close> is a function
  from the state to a pair: the exception that left the method (\<open>None\<close> when it returned)
  and the state the object is in afterwards, so that what a failed call has already written
  stays visible.
\<close>

datatype py_error = TypeError | IndexError | ValueError | ZeroDivisionError | OverflowError

text \<open>
  \<open>self.capacity = (capacity or np.inf)\<close>: an integer, or \<open>np.inf\<close> when the argument is
  \<open>None\<close> or \<open>0\<close> (both falsy).
\<close>

datatype cap = Fin int | Inf

fun cap_of_arg :: "int option \<Rightarrow> cap" where
  "cap_of_arg None = Inf"
| "cap_of_arg (Some c) = (if c = 0 then Inf else Fin c)"

text \<open>\<open>n < capacity\<close> and \<open>n <= capacity\<close> for a size \<open>n\<close>.\<close>

fun lt_cap :: "nat \<Rightarrow> cap \<Rightarrow> bool" where
  "lt_cap n Inf = True"
| "lt_cap n (Fin c) = (int n < c)"

fun le_cap :: "nat \<Rightarrow> cap \<Rightarrow> bool" where
  "le_cap n Inf = True"
| "le_cap n (Fin c) = (int n \<le> c)"

text \<open>
  \<open>xs[i] = v\<close> on a Python list: indices \<open>-len(xs) .. -1\<close> count from the end, anything
  outside \<open>-len(xs) .. len(xs) - 1\<close> raises IndexError (\<open>None\<close> here).
\<close>

definition list_setitem :: "'a list \<Rightarrow> int \<Rightarrow> 'a \<Rightarrow> 'a list option" where
  "list_setitem xs i v =
     (let n = int (length xs) in
      if 0 \<le> i \<and> i < n then Some (xs[nat i := v])
      else if - n \<le> i \<and> i < 0 then Some (xs[nat (n + i) := v])
      else None)"

section \<open>ReplayBuffer\<close>

text \<open>
  The fields of a \<open>ReplayBuffer\<close>: \<open>capacity\<close>, the slot list \<open>buffer\<close>, and the integer
  held by the shared cell \<open>buffer_offset\<close>, read and written through the \<open>offset\<close>
  property. The lock serialises writers and carries no data.
\<close>

record 'a replay_buffer =
  capacity :: cap
  buffer :: "'a list"
  offset :: int

text \<open>
  \<open>ReplayBuffer.__init__(capacity, initializer, Value, Lock)\<close>; \<open>initializer\<close> is
  represented by the container it returns.
\<close>

definition ReplayBuffer_init :: "int option \<Rightarrow> 'a list \<Rightarrow> 'a replay_buffer" where
  "ReplayBuffer_init capacity_arg initializer =
     \<lparr>capacity = cap_of_arg capacity_arg, buffer = initializer, offset = 0\<rparr>"

text \<open>The \<open>size\<close> property: \<open>len(self.buffer)\<close>.\<close>

definition ReplayBuffer_size :: "'a replay_buffer \<Rightarrow> nat" where
  "ReplayBuffer_size s = length (buffer s)"

text \<open>
  \<open>ReplayBuffer.push\<close>, lines 20-29. The slot write comes first; then \<open>self.offset += 1\<close>;
  then, for a finite capacity, \<open>self.offset %= self.capacity\<close> (Python's \<open>%\<close> on integers
  takes the sign of the divisor, as \<open>mod\<close> on \<open>int\<close> does, and raises on a zero divisor).
\<close>

definition ReplayBuffer_push :: "'a replay_buffer \<Rightarrow> 'a \<Rightarrow> py_error option \<times> 'a replay_buffer" where
  "ReplayBuffer_push s item =
     (case (if lt_cap (ReplayBuffer_size s) (capacity s)
            then Some (buffer s @ [item])
            else list_setitem (buffer s) (offset s) item) of
        None \<Rightarrow> (Some IndexError, s)
      | Some b \<Rightarrow>
          (let s1 = s\<lparr>buffer := b, offset := offset s + 1\<rparr> in
           case capacity s1 of
             Inf \<Rightarrow> (None, s1)
           | Fin c \<Rightarrow>
               if c = 0 then (Some ZeroDivisionError, s1)
               else (None, s1\<lparr>offset := offset s1 mod c\<rparr>)))"

text \<open>
  \<open>ReplayBuffer.extend\<close>, lines 31-40: its own loop over the items, with the body written
  out as the source has it; an exception leaves the loop with the items before it stored.
\<close>

fun ReplayBuffer_extend :: "'a replay_buffer \<Rightarrow> 'a list \<Rightarrow> py_error option \<times> 'a replay_buffer" where
  "ReplayBuffer_extend s [] = (None, s)"
| "ReplayBuffer_extend s (items # rest) =
     (if lt_cap (ReplayBuffer_size s) (capacity s)
      then
        (let s1 = s\<lparr>buffer := buffer s @ [items], offset := offset s + 1\<rparr> in
         case capacity s1 of
           Inf \<Rightarrow> ReplayBuffer_extend s1 rest
         | Fin c \<Rightarrow>
             if c = 0 then (Some ZeroDivisionError, s1)
             else ReplayBuffer_extend (s1\<lparr>offset := offset s1 mod c\<rparr>) rest)
      else
        (case list_setitem (buffer s) (offset s) items of
           None \<Rightarrow> (Some IndexError, s)
         | Some b \<Rightarrow>
             (let s1 = s\<lparr>buffer := b, offset := offset s + 1\<rparr> in
              case capacity s1 of
                Inf \<Rightarrow> ReplayBuffer_extend s1 rest
              | Fin c \<Rightarrow>
                  if c = 0 then (Some ZeroDivisionError, s1)
                  else ReplayBuffer_extend (s1\<lparr>offset := offset s1 mod c\<rparr>) rest)))"

text \<open>
  A caller pushing the items one call after the other; the first exception ends the
  sequence, as it would propagate out of the caller.
\<close>

fun push_each :: "'a replay_buffer \<Rightarrow> 'a list \<Rightarrow> py_error option \<times> 'a replay_buffer" where
  "push_each s [] = (None, s)"
| "push_each s (item # rest) =
     (case ReplayBuffer_push s item of
        (None, s') \<Rightarrow> push_each s' rest
      | (Some e, s') \<Rightarrow> (Some e, s'))"

section \<open>TrajectoryReplayBuffer\<close>

text \<open>
  A stored trajectory is the argument tuple of \<open>TrajectoryReplayBuffer.push\<close>, which
  \<open>sample\<close> unpacks as \<open>observation, action, reward, next_observation, done, hidden\<close>:
  five arrays indexed by step along their first axis (a list with one opaque entry per
  step) and the recurrent state, one entry per step. (\<open>done\<close> is a reserved word here,
  hence \<open>done_flags\<close>.)
\<close>

record ('a, 'h) trajectory =
  observation :: "'a list"
  action :: "'a list"
  reward :: "'a list"
  next_observation :: "'a list"
  done_flags :: "'a list"
  hidden :: "'h list"

text \<open>The subclass adds the list \<open>lengths\<close> to the fields of \<open>ReplayBuffer\<close>.\<close>

record ('a, 'h) trajectory_replay_buffer = "('a, 'h) trajectory replay_buffer" +
  lengths :: "nat list"

text \<open>The overriding \<open>size\<close> property: \<open>sum(self.lengths)\<close>.\<close>

definition TrajectoryReplayBuffer_size :: "('a, 'h) trajectory_replay_buffer \<Rightarrow> nat" where
  "TrajectoryReplayBuffer_size s = sum_list (lengths s)"

text \<open>
  \<open>TrajectoryReplayBuffer.push\<close>, lines 72-82. In the overwrite branch the slot is written
  before its length, and the offset wraps modulo \<open>len(self.buffer)\<close>.
\<close>

definition TrajectoryReplayBuffer_push ::
  "('a, 'h) trajectory_replay_buffer \<Rightarrow> ('a, 'h) trajectory
     \<Rightarrow> py_error option \<times> ('a, 'h) trajectory_replay_buffer" where
  "TrajectoryReplayBuffer_push s args =
     (let length0 = length (observation args) in
      if le_cap (TrajectoryReplayBuffer_size s + length0) (capacity s)
      then (None, s\<lparr>buffer := buffer s @ [args], lengths := lengths s @ [length0],
                     offset := offset s + 1\<rparr>)
      else
        (case list_setitem (buffer s) (offset s) args of
           None \<Rightarrow> (Some IndexError, s)
         | Some b \<Rightarrow>
             (case list_setitem (lengths s) (offset s) length0 of
                None \<Rightarrow> (Some IndexError, s\<lparr>buffer := b\<rparr>)
              | Some l \<Rightarrow>
                  if length b = 0 then (Some ZeroDivisionError, s\<lparr>buffer := b, lengths := l\<rparr>)
                  else (None, s\<lparr>buffer := b, lengths := l,
                                 offset := (offset s + 1) mod int (length b)\<rparr>))))"

text \<open>
  \<open>extend\<close> is not overridden: a \<open>TrajectoryReplayBuffer\<close> runs the loop of
  \<open>ReplayBuffer.extend\<close> (lines 31-40) with \<open>self.size\<close> dispatched to the subclass
  property, and never touches \<open>lengths\<close>.
\<close>

fun TrajectoryReplayBuffer_extend ::
  "('a, 'h) trajectory_replay_buffer \<Rightarrow> ('a, 'h) trajectory list
     \<Rightarrow> py_error option \<times> ('a, 'h) trajectory_replay_buffer" where
  "TrajectoryReplayBuffer_extend s [] = (None, s)"
| "TrajectoryReplayBuffer_extend s (items # rest) =
     (case (if lt_cap (TrajectoryReplayBuffer_size s) (capacity s)
            then Some (buffer s @ [items])
            else list_setitem (buffer s) (offset s) items) of
        None \<Rightarrow> (Some IndexError, s)
      | Some b \<Rightarrow>
          (let s1 = s\<lparr>buffer := b, offset := offset s + 1\<rparr> in
           case capacity s1 of
             Inf \<Rightarrow> TrajectoryReplayBuffer_extend s1 rest
           | Fin c \<Rightarrow>
               if c = 0 then (Some ZeroDivisionError, s1)
               else TrajectoryReplayBuffer_extend (s1\<lparr>offset := offset s1 mod c\<rparr>) rest))"

text \<open>Trajectories pushed one call after the other, up to the first exception.\<close>

fun trajectory_push_each ::
  "('a, 'h) trajectory_replay_buffer \<Rightarrow> ('a, 'h) trajectory list
     \<Rightarrow> py_error option \<times> ('a, 'h) trajectory_replay_buffer" where
  "trajectory_push_each s [] = (None, s)"
| "trajectory_push_each s (t # rest) =
     (case TrajectoryReplayBuffer_push s t of
        (None, s') \<Rightarrow> trajectory_push_each s' rest
      | (Some e, s') \<Rightarrow> (Some e, s'))"

subsection \<open>Construction\<close>

text \<open>
  A call with keyword arguments binds each keyword to the parameter of that name; a
  keyword that names no parameter raises TypeError before the body runs. The arguments
  are the capacity, the container an \<open>initializer()\<close> call returns, and a lock.
\<close>

datatype 'a pyarg = CapacityArg "int option" | InitializerArg "'a list" | LockArg

text \<open>The parameters of \<open>ReplayBuffer.__init__\<close> after \<open>self\<close>, line 14.\<close>

definition ReplayBuffer_init_params :: "string list" where
  "ReplayBuffer_init_params = [''capacity'', ''initializer'', ''Value'', ''Lock'']"

text \<open>
  \<open>ReplayBuffer.__init__(**kwargs)\<close>: the binding, then the body with the defaults
  \<open>capacity=None\<close> and \<open>initializer=list\<close> for what the call leaves out.
\<close>

definition call_ReplayBuffer_init :: "(string \<times> 'a pyarg) list \<Rightarrow> py_error + 'a replay_buffer" where
  "call_ReplayBuffer_init kwargs =
     (if list_all (\<lambda>kv. fst kv \<in> set ReplayBuffer_init_params) kwargs
      then Inr (ReplayBuffer_init
                 (case map_of kwargs ''capacity'' of Some (CapacityArg c) \<Rightarrow> c | _ \<Rightarrow> None)
                 (case map_of kwargs ''initializer'' of Some (InitializerArg b) \<Rightarrow> b | _ \<Rightarrow> []))
      else Inl TypeError)"

text \<open>
  \<open>TrajectoryReplayBuffer.__init__\<close>, lines 68-70:
  \<open>super().__init__(capacity=capacity, initializer=initializer, lock=lock)\<close>, then
  \<open>self.lengths = initializer()\<close>. The two containers are what the two \<open>initializer()\<close>
  calls return.
\<close>

definition TrajectoryReplayBuffer_init ::
  "int option \<Rightarrow> ('a, 'h) trajectory list \<Rightarrow> nat list
     \<Rightarrow> py_error + ('a, 'h) trajectory_replay_buffer" where
  "TrajectoryReplayBuffer_init capacity_arg init_buffer init_lengths =
     (case call_ReplayBuffer_init
             [(''capacity'', CapacityArg capacity_arg),
              (''initializer'', InitializerArg init_buffer),
              (''lock'', LockArg)] of
        Inl e \<Rightarrow> Inl e
      | Inr base \<Rightarrow>
          Inr \<lparr>capacity = capacity base, buffer = buffer base, offset = offset base,
               lengths = init_lengths\<rparr>)"

text \<open>
  The methods of the subclass are studied on the state its constructor is written to
  build: the fields of an empty \<open>ReplayBuffer\<close> and an empty \<open>lengths\<close>.
\<close>

definition TrajectoryReplayBuffer_empty :: "cap \<Rightarrow> ('a, 'h) trajectory_replay_buffer" where
  "TrajectoryReplayBuffer_empty c = \<lparr>capacity = c, buffer = [], offset = 0, lengths = []\<rparr>"

subsection \<open>Sequences of mutations\<close>

text \<open>
  A caller that goes on after an exception keeps the object as the failed call left it.
\<close>

datatype 'a mutation = Push 'a | Extend "'a list"

fun ReplayBuffer_apply :: "'a replay_buffer \<Rightarrow> 'a mutation \<Rightarrow> 'a replay_buffer" where
  "ReplayBuffer_apply s (Push x) = snd (ReplayBuffer_push s x)"
| "ReplayBuffer_apply s (Extend xs) = snd (ReplayBuffer_extend s xs)"

fun TrajectoryReplayBuffer_apply ::
  "('a, 'h) trajectory_replay_buffer \<Rightarrow> ('a, 'h) trajectory mutation
     \<Rightarrow> ('a, 'h) trajectory_replay_buffer" where
  "TrajectoryReplayBuffer_apply s (Push t) = snd (TrajectoryReplayBuffer_push s t)"
| "TrajectoryReplayBuffer_apply s (Extend ts) = snd (TrajectoryReplayBuffer_extend s ts)"

text \<open>A trajectory of \<open>n\<close> steps with no content, for concrete runs.\<close>

definition steps :: "nat \<Rightarrow> (unit, unit) trajectory" where
  "steps n = \<lparr>observation = replicate n (), action = replicate n (), reward = replicate n (),
     next_observation = replicate n (), done_flags = replicate n (), hidden = replicate n ()\<rparr>"

section \<open>Uniform sampling from a ReplayBuffer\<close>

text \<open>
  Randomness is an argument: an arbitrary sequence of naturals stands for the generator,
  and a draw from a range reduces the next one modulo the size of the range, so that
  every value of the range can come out and a statement for all sequences covers every
  run. Arrays are lists along their first axis. What numpy and torch do to the numbers
  is an argument too: \<open>float32\<close> is the conversion \<open>torch.FloatTensor\<close> applies to every
  entry of a numeric array (to the nearest 32-bit float), and \<open>shape\<close> gives the shape
  that \<open>np.stack\<close> compares.
\<close>

text \<open>
  \<open>zip(*batch)\<close>: the \<open>j\<close>-th group collects field \<open>j\<close> of every item, up to the
  arity of the shortest item.
\<close>

definition zip_star :: "'f list list \<Rightarrow> 'f list list" where
  "zip_star batch =
     (if batch = [] then []
      else map (\<lambda>j. map (\<lambda>item. item ! j) batch)
             [0..<fold min (map length (tl batch)) (length (hd batch))])"

text \<open>
  \<open>np.stack\<close> on the fields of one group: ValueError without arrays, and unless all of
  them have the shape of the first.
\<close>

definition np_stack_fields :: "('f \<Rightarrow> nat list) \<Rightarrow> 'f list \<Rightarrow> py_error + 'f list" where
  "np_stack_fields shape arrays =
     (if arrays = [] then Inl ValueError
      else if list_all (\<lambda>a. shape a = shape (hd arrays)) arrays then Inr arrays
      else Inl ValueError)"

text \<open>A lazy \<open>map\<close> chain, forced from left to right, raises the first error it meets.\<close>

fun first_error :: "(py_error + 'x) list \<Rightarrow> py_error + 'x list" where
  "first_error [] = Inr []"
| "first_error (Inl e # rest) = Inl e"
| "first_error (Inr x # rest) = (case first_error rest of Inl e \<Rightarrow> Inl e | Inr xs \<Rightarrow> Inr (x # xs))"

text \<open>
  \<open>ReplayBuffer.sample\<close>, lines 42-49. \<open>np.random.randint(self.size, size=batch_size)\<close>
  raises ValueError for a negative count and for an empty range; the items are tuples,
  here lists of fields. Line 49 stacks each group of fields along a new first axis and
  converts the stacked array with \<open>torch.FloatTensor\<close>.
\<close>

definition ReplayBuffer_sample ::
  "('f \<Rightarrow> 'f) \<Rightarrow> ('f \<Rightarrow> nat list) \<Rightarrow> 'f list replay_buffer \<Rightarrow> int \<Rightarrow> (nat \<Rightarrow> nat)
     \<Rightarrow> py_error + 'f list list" where
  "ReplayBuffer_sample float32 shape s batch_size randint =
     (if batch_size < 0 then Inl ValueError
      else if batch_size = 0 then Inr []
      else if ReplayBuffer_size s = 0 then Inl ValueError
      else first_error
             (map (\<lambda>group. case np_stack_fields shape group of
                              Inl e \<Rightarrow> Inl e
                            | Inr stacked \<Rightarrow> Inr (map float32 stacked))
                  (zip_star (map (\<lambda>k. buffer s ! (randint k mod ReplayBuffer_size s))
                                [0..<nat batch_size]))))"

text \<open>
  The conversion of a number with an integer value (written as that integer) to the
  nearest 32-bit float, ties to the even significand, for concrete runs: 24 bits of
  significand are kept. (Magnitudes of \<open>2^128\<close> and more become an infinity in the code
  and are outside this function.)
\<close>

function excess_bits :: "nat \<Rightarrow> nat" where
  "excess_bits n = (if n < 2 ^ 24 then 0 else Suc (excess_bits (n div 2)))"
  by pat_completeness auto
termination
  by (relation "measure (\<lambda>n. n)") auto

declare excess_bits.simps [simp del]

definition float32_of_int :: "int \<Rightarrow> int" where
  "float32_of_int n =
     (let m = nat \<bar>n\<bar>; k = excess_bits m; q = m div 2 ^ k; r = m mod 2 ^ k;
          q' = (if 2 * r < 2 ^ k then q
                else if 2 ^ k < 2 * r then q + 1
                else if even q then q else q + 1)
      in sgn n * int (q' * 2 ^ k))"

text \<open>The shape of a number: no axes.\<close>

definition scalar_shape :: "int \<Rightarrow> nat list" where
  "scalar_shape x = []"

section \<open>Sub-sequence sampling from a TrajectoryReplayBuffer\<close>

text \<open>
  \<open>xs[start:stop]\<close> with Python's clamping: a negative bound counts from the end, both
  bounds are cut to \<open>0 .. len(xs)\<close>, and an empty range gives the empty list.
\<close>

definition py_slice :: "'a list \<Rightarrow> int \<Rightarrow> int \<Rightarrow> 'a list" where
  "py_slice xs start stop =
     (let n = int (length xs);
          lo = (if start < 0 then max (n + start) 0 else min start n);
          hi = (if stop < 0 then max (n + stop) 0 else min stop n)
      in take (nat (hi - lo)) (drop (nat lo) xs))"

text \<open>The five arrays that line 92 unpacks before \<open>hidden\<close>.\<close>

definition trajectory_fields :: "('a, 'h) trajectory \<Rightarrow> 'a list list" where
  "trajectory_fields t =
     [observation t, action t, reward t, next_observation t, done_flags t]"

text \<open>The tuple appended to \<open>batch\<close>, lines 95-99: the same slice of every array.\<close>

definition subsequence :: "('a, 'h) trajectory \<Rightarrow> int \<Rightarrow> int \<Rightarrow> 'a list list" where
  "subsequence t off step_size =
     map (\<lambda>field. py_slice field off (off + step_size)) (trajectory_fields t)"

text \<open>
  \<open>np.random.choice(len(weights), p=weights)\<close> with \<open>weights = lengths / lengths.sum()\<close>:
  ValueError for an empty population and when the lengths sum to zero (the weights are
  then not numbers); otherwise an index below \<open>len(weights)\<close>. The model lets any index
  of the range come out, which includes every index numpy can return.
\<close>

definition np_random_choice :: "nat list \<Rightarrow> nat \<Rightarrow> py_error + nat" where
  "np_random_choice lens r =
     (if lens = [] then Inl ValueError
      else if sum_list lens = 0 then Inl ValueError
      else Inr (r mod length lens))"

text \<open>\<open>random.randint(0, b)\<close>: a value in \<open>0 .. b\<close>, both ends included.\<close>

definition random_randint :: "nat \<Rightarrow> nat \<Rightarrow> nat" where
  "random_randint b r = r mod (b + 1)"

text \<open>
  The \<open>while True\<close> loop of lines 90-101 for one element of the batch. \<open>pos\<close> counts the
  numpy draws made so far; \<open>r\<close> is the number the Python generator hands to the one
  \<open>randint\<close> call of this element. The result is \<open>None\<close> when the loop never leaves.
  Indexing \<open>self.buffer\<close> and \<open>hidden\<close> past the end raises IndexError.
\<close>

partial_function (option) draw_subsequence ::
  "('a, 'h) trajectory_replay_buffer \<Rightarrow> int \<Rightarrow> (nat \<Rightarrow> nat) \<Rightarrow> nat \<Rightarrow> nat
     \<Rightarrow> (py_error + ('a list list \<times> 'h) \<times> nat) option" where
  "draw_subsequence s step_size choice r pos =
     (case np_random_choice (lengths s) (choice pos) of
        Inl e \<Rightarrow> Some (Inl e)
      | Inr index \<Rightarrow>
          if length (buffer s) \<le> index then Some (Inl IndexError)
          else
            if step_size \<le> int (length (observation (buffer s ! index)))
            then
              (let off = random_randint (nat (int (length (observation (buffer s ! index))) - step_size)) r in
               if length (hidden (buffer s ! index)) \<le> off then Some (Inl IndexError)
               else Some (Inr ((subsequence (buffer s ! index) (int off) step_size,
                                hidden (buffer s ! index) ! off), Suc pos)))
            else draw_subsequence s step_size choice r (Suc pos))"

text \<open>The \<open>for i in range(batch_size)\<close> loop of lines 89-101.\<close>

fun sample_loop ::
  "nat \<Rightarrow> ('a, 'h) trajectory_replay_buffer \<Rightarrow> int \<Rightarrow> (nat \<Rightarrow> nat) \<Rightarrow> (nat \<Rightarrow> nat) \<Rightarrow> nat \<Rightarrow> nat
     \<Rightarrow> (py_error + ('a list list \<times> 'h) list) option" where
  "sample_loop 0 s step_size choice randint pos k = Some (Inr [])"
| "sample_loop (Suc i) s step_size choice randint pos k =
     (case draw_subsequence s step_size choice (randint k) pos of
        None \<Rightarrow> None
      | Some (Inl e) \<Rightarrow> Some (Inl e)
      | Some (Inr (entry, pos')) \<Rightarrow>
          (case sample_loop i s step_size choice randint pos' (Suc k) of
             None \<Rightarrow> None
           | Some (Inl e) \<Rightarrow> Some (Inl e)
           | Some (Inr rest) \<Rightarrow> Some (Inr (entry # rest))))"

text \<open>
  \<open>np.stack\<close> wants at least one array and equal shapes; the shape that can differ
  between two slices is their length. \<open>torch.FloatTensor\<close> converts every entry of
  the stacked array, and \<open>transpose(0, 1)\<close> swaps the batch axis and the step axis.
\<close>

definition np_stack :: "'a list list \<Rightarrow> py_error + 'a list list" where
  "np_stack arrays =
     (if arrays = [] then Inl ValueError
      else if list_all (\<lambda>a. length a = length (hd arrays)) arrays then Inr arrays
      else Inl ValueError)"

definition transpose_0_1 :: "'a list list \<Rightarrow> 'a list list" where
  "transpose_0_1 rows =
     (if rows = [] then []
      else map (\<lambda>t. map (\<lambda>row. row ! t) rows) [0..<length (hd rows)])"

definition stack_time_major :: "('a \<Rightarrow> 'a) \<Rightarrow> 'a list list \<Rightarrow> py_error + 'a list list" where
  "stack_time_major float32 arrays =
     (case np_stack arrays of
        Inl e \<Rightarrow> Inl e
      | Inr a \<Rightarrow> Inr (transpose_0_1 (map (map float32) a)))"

text \<open>
  Modelled from the spec: \<open>LSTMHidden\<close> (module \<open>common.network_base\<close>) is not among the
  sources. A trajectory carries one hidden-state entry per step, \<open>hidden[offset]\<close> is the
  entry at that step, and \<open>LSTMHidden.cat(hiddens, dim=1)\<close> is "a concatenation of the
  per-sample hidden-state snapshots along the batch axis": the list of the snapshots in
  batch order.
\<close>

definition LSTMHidden_cat :: "'h list \<Rightarrow> 'h list" where
  "LSTMHidden_cat hiddens = hiddens"

text \<open>
  \<open>TrajectoryReplayBuffer.sample\<close>, lines 84-110. Lines 105-108 stack, convert and
  transpose each group of slices, in order. Unpacking into five names raises ValueError
  unless there are exactly five arrays; an empty batch gives none. The hidden entries
  are not converted.
\<close>

type_synonym ('a, 'h) sampled =
  "'a list list \<times> 'a list list \<times> 'a list list \<times> 'a list list \<times> 'a list list \<times> 'h list"

definition TrajectoryReplayBuffer_sample ::
  "('a \<Rightarrow> 'a) \<Rightarrow> ('a, 'h) trajectory_replay_buffer \<Rightarrow> int \<Rightarrow> int \<Rightarrow> (nat \<Rightarrow> nat) \<Rightarrow> (nat \<Rightarrow> nat)
     \<Rightarrow> (py_error + ('a, 'h) sampled) option" where
  "TrajectoryReplayBuffer_sample float32 s batch_size step_size choice randint =
     (case sample_loop (nat batch_size) s step_size choice randint 0 0 of
        None \<Rightarrow> None
      | Some (Inl e) \<Rightarrow> Some (Inl e)
      | Some (Inr entries) \<Rightarrow>
          Some
           (case first_error (map (stack_time_major float32) (zip_star (map fst entries))) of
              Inl e \<Rightarrow> Inl e
            | Inr [ob, ac, re, ne, dn] \<Rightarrow>
                Inr (ob, ac, re, ne, dn, LSTMHidden_cat (map snd entries))
            | Inr _ \<Rightarrow> Inl ValueError))"

text \<open>
  A trajectory whose five arrays have one length, as the data model says of every
  trajectory.
\<close>

definition aligned :: "('a, 'h) trajectory \<Rightarrow> bool" where
  "aligned t = list_all (\<lambda>field. length field = length (observation t)) (trajectory_fields t)"

text \<open>
  A draw \<open>(index, offset)\<close> designates a window of \<open>step_size\<close> steps inside a stored
  trajectory: the slot exists, its trajectory has length \<open>L \<ge> step_size\<close>, and the
  offset lies in \<open>0 .. L - step_size\<close>.
\<close>

definition taken_from :: "('a, 'h) trajectory_replay_buffer \<Rightarrow> int \<Rightarrow> nat \<times> nat \<Rightarrow> bool" where
  "taken_from s step_size d =
     (fst d < length (buffer s)
      \<and> step_size \<le> int (length (observation (buffer s ! fst d)))
      \<and> int (snd d) \<le> int (length (observation (buffer s ! fst d))) - step_size)"

definition entry_of :: "('a, 'h) trajectory_replay_buffer \<Rightarrow> int \<Rightarrow> nat \<times> nat \<Rightarrow> 'a list list \<times> 'h" where
  "entry_of s step_size d =
     (subsequence (buffer s ! fst d) (int (snd d)) step_size, hidden (buffer s ! fst d) ! snd d)"

definition drawn :: "('a, 'h) trajectory_replay_buffer \<Rightarrow> int \<Rightarrow> 'a list list \<times> 'h \<Rightarrow> bool" where
  "drawn s step_size entry =
     (\<exists>d. taken_from s step_size d \<and> snd d < length (hidden (buffer s ! fst d))
          \<and> entry = entry_of s step_size d)"

text \<open>
  \<open>gather float32 field s step_size draws\<close> is the time-major array whose entry at step
  \<open>t\<close> and batch position \<open>b\<close> is the converted step \<open>offset + t\<close> of the \<open>field\<close> of the
  \<open>b\<close>-th drawn trajectory.
\<close>

definition gather ::
  "('a \<Rightarrow> 'a) \<Rightarrow> (('a, 'h) trajectory \<Rightarrow> 'a list) \<Rightarrow> ('a, 'h) trajectory_replay_buffer \<Rightarrow> int
     \<Rightarrow> (nat \<times> nat) list \<Rightarrow> 'a list list" where
  "gather float32 field s step_size draws =
     map (\<lambda>t. map (\<lambda>d. float32 (field (buffer s ! fst d) ! (snd d + t))) draws)
       [0..<nat step_size]"

definition time_major_shape :: "nat \<Rightarrow> nat \<Rightarrow> 'a list list \<Rightarrow> bool" where
  "time_major_shape T B arr = (length arr = T \<and> list_all (\<lambda>row. length row = B) arr)"

text \<open>
  A state in which the retry loop has no way out: \<open>lengths\<close> records the slots, holds at
  least one step, and every stored trajectory is shorter than \<open>step_size\<close>.
\<close>

definition can_loop :: "('a, 'h) trajectory_replay_buffer \<Rightarrow> int \<Rightarrow> bool" where
  "can_loop s step_size =
     (lengths s = map (\<lambda>t. length (observation t)) (buffer s)
      \<and> sum_list (lengths s) \<noteq> 0
      \<and> list_all (\<lambda>t. int (length (observation t)) < step_size) (buffer s))"

text \<open>Two stored trajectories, of 2 and 4 steps, for concrete runs.\<close>

definition two_trajectories :: "(int, nat) trajectory_replay_buffer" where
  "two_trajectories =
     \<lparr>capacity = Fin 10,
      buffer =
        [\<lparr>observation = [1, 2], action = [11, 12], reward = [21, 22],
          next_observation = [2, 3], done_flags = [0, 1], hidden = [31, 32]\<rparr>,
         \<lparr>observation = [4, 5, 6, 7], action = [14, 15, 16, 17], reward = [24, 25, 26, 27],
          next_observation = [5, 6, 7, 8], done_flags = [0, 0, 0, 1], hidden = [34, 35, 36, 37]\<rparr>],
      offset = 2, lengths = [2, 4]\<rparr>"

text \<open>
  A trajectory of three steps whose \<open>action\<close> array has two entries, and the buffer that
  one \<open>push\<close> of it builds; a buffer holding one aligned trajectory of two steps.
\<close>

definition short_action :: "(int, nat) trajectory" where
  "short_action =
     \<lparr>observation = [1, 2, 3], action = [11, 12], reward = [21, 22, 23],
      next_observation = [2, 3, 4], done_flags = [0, 0, 1], hidden = [31, 32, 33]\<rparr>"

definition one_trajectory :: "(int, nat) trajectory_replay_buffer" where
  "one_trajectory =
     \<lparr>capacity = Fin 10,
      buffer = [\<lparr>observation = [1, 2], action = [11, 12], reward = [21, 22],
                next_observation = [2, 3], done_flags = [0, 1], hidden = [31, 32]\<rparr>],
      offset = 1, lengths = [2]\<rparr>"

text \<open>A generator that always yields the same number.\<close>

definition constant_draws :: "nat \<Rightarrow> nat \<Rightarrow> nat" where
  "constant_draws v n = v"

section \<open>Flow control in the training loop\<close>

text \<open>
  \<open>train_loop\<close>, lines 27-53, for one update step. The counters are Python integers.
  \<open>a / b\<close> raises ZeroDivisionError when \<open>b\<close> is zero; otherwise it is the float nearest
  to the quotient, or OverflowError. The float arithmetic is the parameter
  \<open>float_quotient\<close>, asked only for a non-zero divisor, and the ratios are compared in a
  linear order. The \<open>except ZeroDivisionError\<close> clause catches that error alone.
\<close>

datatype signal = Pause | Resume

record 'r config =
  n_samples_per_update :: int
  update_sample_ratio :: 'r

definition py_truediv :: "(int \<Rightarrow> int \<Rightarrow> py_error + 'r) \<Rightarrow> int \<Rightarrow> int \<Rightarrow> py_error + 'r" where
  "py_truediv float_quotient a b =
     (if b = 0 then Inl ZeroDivisionError else float_quotient a b)"

definition flow_control_step ::
  "(int \<Rightarrow> int \<Rightarrow> py_error + 'r) \<Rightarrow> ('r::linorder) config \<Rightarrow> int \<Rightarrow> int \<Rightarrow> int
     \<Rightarrow> py_error + 'r \<times> signal" where
  "flow_control_step float_quotient config global_step n_total_steps n_initial_samples =
     (case (case py_truediv float_quotient (n_samples_per_update config * global_step)
                   (n_total_steps - n_initial_samples) of
              Inl e \<Rightarrow> if e = ZeroDivisionError then Inr (update_sample_ratio config) else Inl e
            | Inr q \<Rightarrow> Inr q) of
        Inl e \<Rightarrow> Inl e
      | Inr ratio \<Rightarrow>
          Inr (ratio, if ratio < update_sample_ratio config then Pause else Resume))"

text \<open>The quotient without rounding, for concrete runs.\<close>

definition exact_quotient :: "int \<Rightarrow> int \<Rightarrow> py_error + rat" where
  "exact_quotient a b = Inr (of_int a / of_int b)"

section \<open>Invariants used in the proofs\<close>

definition rb_bounded :: "int \<Rightarrow> 'a replay_buffer \<Rightarrow> bool" where
  "rb_bounded c s = (capacity s = Fin c \<and> int (ReplayBuffer_size s) \<le> c)"

text \<open>
  What holds of a \<open>TrajectoryReplayBuffer\<close> that only \<open>push\<close> has written to: the offset
  is the slot count, and each stored length is that of its slot.
\<close>

definition push_only :: "('a, 'h) trajectory_replay_buffer \<Rightarrow> bool" where
  "push_only s = (offset s = int (length (buffer s))
     \<and> lengths s = map (\<lambda>t. length (observation t)) (buffer s)
     \<and> le_cap (TrajectoryReplayBuffer_size s) (capacity s))"

section \<open>Helper lemmas\<close>

lemma list_setitem_length: "list_setitem xs i v = Some ys \<Longrightarrow> length ys = length xs"
  by (auto simp: list_setitem_def Let_def split: if_splits)

lemma list_setitem_past_end: "list_setitem xs (int (length xs)) v = None"
  by (simp add: list_setitem_def)

lemma ReplayBuffer_extend_push_each: "ReplayBuffer_extend s xs = push_each s xs"
proof (induction xs arbitrary: s)
  case Nil
  show ?case by simp
next
  case (Cons x xs)
  show ?case
    by (simp add: ReplayBuffer_push_def Let_def Cons.IH split: option.splits cap.splits)
qed

lemma ReplayBuffer_push_bounded:
  "rb_bounded c s \<Longrightarrow> rb_bounded c (snd (ReplayBuffer_push s x))"
  by (auto simp: rb_bounded_def ReplayBuffer_push_def ReplayBuffer_size_def Let_def
      dest: list_setitem_length split: option.splits)

lemma push_each_bounded:
  "rb_bounded c s \<Longrightarrow> rb_bounded c (snd (push_each s xs))"
proof (induction xs arbitrary: s)
  case Nil
  then show ?case by simp
next
  case (Cons x xs)
  have b: "rb_bounded c (snd (ReplayBuffer_push s x))"
    using Cons.prems by (rule ReplayBuffer_push_bounded)
  show ?case
  proof (cases "ReplayBuffer_push s x")
    case (Pair e s')
    with b have b': "rb_bounded c s'" by simp
    show ?thesis
    proof (cases e)
      case None
      with Pair Cons.IH [OF b'] show ?thesis by simp
    next
      case (Some err)
      with Pair b' show ?thesis by simp
    qed
  qed
qed

lemma ReplayBuffer_apply_bounded:
  "rb_bounded c s \<Longrightarrow> rb_bounded c (ReplayBuffer_apply s m)"
  by (cases m) (simp_all add: ReplayBuffer_push_bounded ReplayBuffer_extend_push_each
      push_each_bounded)

lemma ReplayBuffer_run_bounded:
  "rb_bounded c s \<Longrightarrow> rb_bounded c (foldl ReplayBuffer_apply s ms)"
  by (induction ms arbitrary: s) (simp_all add: ReplayBuffer_apply_bounded)

lemma TrajectoryReplayBuffer_push_only:
  "push_only s \<Longrightarrow> push_only (snd (TrajectoryReplayBuffer_push s t))
     \<and> capacity (snd (TrajectoryReplayBuffer_push s t)) = capacity s"
  by (auto simp: push_only_def TrajectoryReplayBuffer_push_def TrajectoryReplayBuffer_size_def
      Let_def list_setitem_past_end)

lemma TrajectoryReplayBuffer_run_push_only:
  "push_only s \<Longrightarrow> push_only (foldl TrajectoryReplayBuffer_apply s (map Push ts))
     \<and> capacity (foldl TrajectoryReplayBuffer_apply s (map Push ts)) = capacity s"
  by (induction ts arbitrary: s) (simp_all add: TrajectoryReplayBuffer_push_only)

lemma push_each_fits:
  "le_cap (ReplayBuffer_size s + length xs) (capacity s) \<Longrightarrow>
     fst (push_each s xs) = None \<and> buffer (snd (push_each s xs)) = buffer s @ xs"
proof (induction xs arbitrary: s)
  case Nil
  show ?case by simp
next
  case (Cons x xs)
  show ?case
  proof (cases "capacity s")
    case Inf
    have "ReplayBuffer_push s x = (None, s\<lparr>buffer := buffer s @ [x], offset := offset s + 1\<rparr>)"
      using Inf by (simp add: ReplayBuffer_push_def)
    moreover have "le_cap (ReplayBuffer_size (s\<lparr>buffer := buffer s @ [x], offset := offset s + 1\<rparr>) + length xs)
        (capacity (s\<lparr>buffer := buffer s @ [x], offset := offset s + 1\<rparr>))"
      using Inf by simp
    ultimately show ?thesis using Cons.IH by simp
  next
    case (Fin c)
    with Cons.prems have c: "int (length (buffer s)) + int (length xs) + 1 \<le> c"
      by (simp add: ReplayBuffer_size_def)
    let ?s' = "s\<lparr>buffer := buffer s @ [x], offset := (offset s + 1) mod c\<rparr>"
    have "ReplayBuffer_push s x = (None, ?s')"
      using Fin c by (simp add: ReplayBuffer_push_def ReplayBuffer_size_def)
    moreover have "le_cap (ReplayBuffer_size ?s' + length xs) (capacity ?s')"
      using Fin c by (simp add: ReplayBuffer_size_def)
    ultimately show ?thesis using Cons.IH by simp
  qed
qed

lemma trajectory_push_each_fits:
  "le_cap (TrajectoryReplayBuffer_size s + sum_list (map (\<lambda>t. length (observation t)) ts)) (capacity s) \<Longrightarrow>
     fst (trajectory_push_each s ts) = None
     \<and> buffer (snd (trajectory_push_each s ts)) = buffer s @ ts
     \<and> lengths (snd (trajectory_push_each s ts)) = lengths s @ map (\<lambda>t. length (observation t)) ts"
proof (induction ts arbitrary: s)
  case Nil
  show ?case by simp
next
  case (Cons t ts)
  let ?s' = "s\<lparr>buffer := buffer s @ [t], lengths := lengths s @ [length (observation t)],
                     offset := offset s + 1\<rparr>"
  have fit: "le_cap (TrajectoryReplayBuffer_size s + length (observation t)) (capacity s)"
    using Cons.prems by (cases "capacity s") simp_all
  then have "TrajectoryReplayBuffer_push s t = (None, ?s')"
    by (simp add: TrajectoryReplayBuffer_push_def)
  moreover have "le_cap (TrajectoryReplayBuffer_size ?s' + sum_list (map (\<lambda>t. length (observation t)) ts)) (capacity ?s')"
    using Cons.prems by (simp add: TrajectoryReplayBuffer_size_def add.assoc)
  ultimately show ?case using Cons.IH by simp
qed

lemma zip_star_single: "zip_star [item] = map (\<lambda>f. [f]) item"
proof -
  have "map (\<lambda>j. [item ! j]) [0..<length item] = map (\<lambda>f. [f]) (map (\<lambda>j. item ! j) [0..<length item])"
    by simp
  then show ?thesis by (simp add: zip_star_def map_nth)
qed

lemma draw_subsequence_step:
  assumes IH: "\<And>s step_size choice r pos y. draw s step_size choice r pos = Some y \<Longrightarrow>
                 (\<forall>entry pos'. y = Inr (entry, pos') \<longrightarrow> drawn s step_size entry)"
    and body: "(case np_random_choice (lengths s) (choice pos) of
        Inl e \<Rightarrow> Some (Inl e)
      | Inr index \<Rightarrow>
          if length (buffer s) \<le> index then Some (Inl IndexError)
          else
            if step_size \<le> int (length (observation (buffer s ! index)))
            then
              (let off = random_randint (nat (int (length (observation (buffer s ! index))) - step_size)) r in
               if length (hidden (buffer s ! index)) \<le> off then Some (Inl IndexError)
               else Some (Inr ((subsequence (buffer s ! index) (int off) step_size,
                                hidden (buffer s ! index) ! off), Suc pos)))
            else draw s step_size choice r (Suc pos)) = Some (Inr (entry, pos'))"
  shows "drawn s step_size entry"
proof -
  from body obtain index where
    ch: "np_random_choice (lengths s) (choice pos) = Inr index"
    and ix: "index < length (buffer s)"
    by (auto split: sum.splits if_splits)
  let ?t = "buffer s ! index"
  show ?thesis
  proof (cases "step_size \<le> int (length (observation ?t))")
    case True
    let ?off = "random_randint (nat (int (length (observation ?t)) - step_size)) r"
    from body ch ix True
    have h: "?off < length (hidden ?t)" and e: "entry = entry_of s step_size (index, ?off)"
      by (auto simp: Let_def entry_of_def split: if_splits)
    have "?off \<le> nat (int (length (observation ?t)) - step_size)"
      by (simp add: random_randint_def)
    with True have "int ?off \<le> int (length (observation ?t)) - step_size" by linarith
    with ix True have "taken_from s step_size (index, ?off)"
      by (simp add: taken_from_def)
    with h e show ?thesis unfolding drawn_def by (intro exI [of _ "(index, ?off)"]) simp
  next
    case False
    with body ch ix
    have "draw s step_size choice r (Suc pos) = Some (Inr (entry, pos'))"
      by simp
    from IH [OF this] show ?thesis by blast
  qed
qed

lemma draw_subsequence_sound_aux:
  assumes "draw_subsequence s step_size choice r pos = Some y"
  shows "\<forall>e p. y = Inr (e, p) \<longrightarrow> drawn s step_size e"
  apply (rule draw_subsequence.raw_induct
      [where P = "\<lambda>s step_size choice r pos y. \<forall>e p. y = Inr (e, p) \<longrightarrow> drawn s step_size e",
       OF _ assms])
  apply (intro allI impI)
  apply hypsubst
  apply (rule draw_subsequence_step [rotated])
   apply assumption
  apply blast
  done

lemma draw_subsequence_sound:
  "draw_subsequence s step_size choice r pos = Some (Inr (entry, pos')) \<Longrightarrow> drawn s step_size entry"
  using draw_subsequence_sound_aux by blast

lemma draw_subsequence_retry:
  assumes cl: "can_loop s step_size"
  shows "(case np_random_choice (lengths s) (choice pos) of
        Inl e \<Rightarrow> Some (Inl e)
      | Inr index \<Rightarrow>
          if length (buffer s) \<le> index then Some (Inl IndexError)
          else
            if step_size \<le> int (length (observation (buffer s ! index)))
            then
              (let off = random_randint (nat (int (length (observation (buffer s ! index))) - step_size)) r in
               if length (hidden (buffer s ! index)) \<le> off then Some (Inl IndexError)
               else Some (Inr ((subsequence (buffer s ! index) (int off) step_size,
                                hidden (buffer s ! index) ! off), Suc pos)))
            else draw s step_size choice r (Suc pos)) = draw s step_size choice r (Suc pos)"
proof -
  from cl have len: "length (lengths s) = length (buffer s)" and ne: "lengths s \<noteq> []"
    and sum: "sum_list (lengths s) \<noteq> 0"
    and short: "\<And>i. i < length (buffer s) \<Longrightarrow> int (length (observation (buffer s ! i))) < step_size"
    by (auto simp: can_loop_def list_all_length)
  let ?index = "choice pos mod length (lengths s)"
  have ch: "np_random_choice (lengths s) (choice pos) = Inr ?index"
    using ne sum by (simp add: np_random_choice_def)
  have ix: "?index < length (buffer s)"
    using ne len by (metis length_greater_0_conv mod_less_divisor)
  from short [OF ix] have "\<not> step_size \<le> int (length (observation (buffer s ! ?index)))"
    by simp
  with ch ix show ?thesis by simp
qed

lemma draw_subsequence_diverges:
  assumes cl: "can_loop s step_size"
  shows "draw_subsequence s step_size choice r pos = None"
proof (rule ccontr)
  assume "draw_subsequence s step_size choice r pos \<noteq> None"
  then obtain y where y: "draw_subsequence s step_size choice r pos = Some y" by blast
  have "can_loop s step_size \<longrightarrow> False"
    apply (rule draw_subsequence.raw_induct
        [where P = "\<lambda>s step_size choice r pos y. can_loop s step_size \<longrightarrow> False", OF _ y])
    apply (rule impI)
    apply (simp only: draw_subsequence_retry)
    apply blast
    done
  with cl show False by blast
qed

lemma sample_loop_sound:
  "sample_loop i s step_size choice randint pos k = Some (Inr entries) \<Longrightarrow>
     \<exists>draws. length draws = i \<and> entries = map (entry_of s step_size) draws
       \<and> list_all (taken_from s step_size) draws
       \<and> list_all (\<lambda>d. snd d < length (hidden (buffer s ! fst d))) draws"
proof (induction i arbitrary: pos k entries)
  case 0
  then show ?case by simp
next
  case (Suc i)
  from Suc.prems obtain entry pos' rest where
    d: "draw_subsequence s step_size choice (randint k) pos = Some (Inr (entry, pos'))"
    and l: "sample_loop i s step_size choice randint pos' (Suc k) = Some (Inr rest)"
    and e: "entries = entry # rest"
    by (auto split: option.splits sum.splits prod.splits)
  from draw_subsequence_sound [OF d] obtain d0 where
    d0: "taken_from s step_size d0" "snd d0 < length (hidden (buffer s ! fst d0))"
      "entry = entry_of s step_size d0"
    unfolding drawn_def by blast
  from Suc.IH [OF l] obtain draws where
    ds: "length draws = i" "rest = map (entry_of s step_size) draws"
      "list_all (taken_from s step_size) draws"
      "list_all (\<lambda>d. snd d < length (hidden (buffer s ! fst d))) draws"
    by blast
  show ?case
    using d0 ds e by (intro exI [of _ "d0 # draws"]) simp
qed

lemma sample_loop_diverges:
  "can_loop s step_size \<Longrightarrow> sample_loop (Suc i) s step_size choice randint pos k = None"
  by (simp add: draw_subsequence_diverges)

lemma py_slice_window:
  assumes "0 \<le> step_size" and "int off + step_size \<le> int (length xs)"
  shows "py_slice xs (int off) (int off + step_size) = take (nat step_size) (drop off xs)"
proof -
  have "min (int off) (int (length xs)) = int off" using assms by simp
  moreover have "min (int off + step_size) (int (length xs)) = int off + step_size"
    using assms by simp
  ultimately show ?thesis using assms by (simp add: py_slice_def Let_def)
qed

lemma fold_min_uniform:
  "list_all (\<lambda>w. length w = n) ws \<Longrightarrow> fold min (map length ws) n = n"
  by (induction ws) simp_all

lemma zip_star_uniform:
  assumes "batch \<noteq> []" and "list_all (\<lambda>w. length w = n) batch"
  shows "zip_star batch = map (\<lambda>j. map (\<lambda>item. item ! j) batch) [0..<n]"
proof -
  from assms obtain w ws where b: "batch = w # ws" by (cases batch) auto
  with assms(2) have "length w = n" and "list_all (\<lambda>w. length w = n) ws" by simp_all
  then have "fold min (map length ws) (length w) = n" by (simp add: fold_min_uniform)
  with b show ?thesis by (simp add: zip_star_def)
qed

lemma stack_time_major_uniform:
  assumes "rows \<noteq> []" and "list_all (\<lambda>r. length r = w) rows"
  shows "stack_time_major float32 rows
           = Inr (map (\<lambda>t. map (\<lambda>row. float32 (row ! t)) rows) [0..<w])"
proof -
  from assms have hd: "length (hd rows) = w" by (cases rows) auto
  with assms have st: "np_stack rows = Inr rows" by (simp add: np_stack_def)
  have "map (\<lambda>t. map (\<lambda>row. row ! t) (map (map float32) rows)) [0..<w]
      = map (\<lambda>t. map (\<lambda>row. float32 (row ! t)) rows) [0..<w]"
  proof (rule map_cong [OF refl])
    fix t assume "t \<in> set [0..<w]"
    then have t: "t < w" by simp
    have "map float32 row ! t = float32 (row ! t)" if "row \<in> set rows" for row
      using that assms(2) t by (simp add: list_all_iff)
    then show "map (\<lambda>row. row ! t) (map (map float32) rows)
        = map (\<lambda>row. float32 (row ! t)) rows"
      by (simp add: o_def)
  qed
  moreover have "length (hd (map (map float32) rows)) = w"
    using assms(1) hd by (cases rows) auto
  ultimately show ?thesis
    using assms(1) st by (simp add: stack_time_major_def transpose_0_1_def)
qed

lemma excess_bits_small: "n < 2 ^ 24 \<Longrightarrow> excess_bits n = 0"
  by (subst excess_bits.simps) simp

lemma float32_of_int_small: "\<bar>n\<bar> < 2 ^ 24 \<Longrightarrow> float32_of_int n = n"
proof -
  assume a: "\<bar>n\<bar> < 2 ^ 24"
  then have "nat \<bar>n\<bar> < 2 ^ 24" by (simp add: nat_less_iff)
  then have "excess_bits (nat \<bar>n\<bar>) = 0" by (rule excess_bits_small)
  then show ?thesis by (simp add: float32_of_int_def Let_def mult_sgn_abs)
qed

lemma gather_shape:
  "time_major_shape (nat step_size) (length draws) (gather float32 field s step_size draws)"
  by (simp add: time_major_shape_def gather_def list_all_length)

lemma subsequence_aligned:
  assumes "0 \<le> step_size" and "aligned t"
    and "int off + step_size \<le> int (length (observation t))"
  shows "subsequence t (int off) step_size
           = map (\<lambda>field. take (nat step_size) (drop off field)) (trajectory_fields t)"
  unfolding subsequence_def
proof (rule map_cong [OF refl])
  fix field assume "field \<in> set (trajectory_fields t)"
  with assms(2) have "length field = length (observation t)"
    by (simp add: aligned_def list_all_iff)
  with assms show "py_slice field (int off) (int off + step_size)
      = take (nat step_size) (drop off field)"
    by (simp add: py_slice_window)
qed

lemma stack_windows:
  assumes ne: "draws \<noteq> []"
    and fits: "\<And>d. d \<in> set draws \<Longrightarrow> snd d + n \<le> length (F d)"
  shows "stack_time_major float32 (map (\<lambda>d. take n (drop (snd d) (F d))) draws)
           = Inr (map (\<lambda>t. map (\<lambda>d. float32 (F d ! (snd d + t))) draws) [0..<n])"
proof -
  let ?rows = "map (\<lambda>d. take n (drop (snd d) (F d))) draws"
  have "list_all (\<lambda>r. length r = n) ?rows"
    unfolding list_all_iff
  proof
    fix r assume "r \<in> set ?rows"
    then obtain d where d: "d \<in> set draws" and r: "r = take n (drop (snd d) (F d))" by auto
    from fits [OF d] r show "length r = n" by simp
  qed
  with ne have "stack_time_major float32 ?rows
      = Inr (map (\<lambda>t. map (\<lambda>row. float32 (row ! t)) ?rows) [0..<n])"
    by (simp add: stack_time_major_uniform)
  moreover have "map (\<lambda>t. map (\<lambda>row. float32 (row ! t)) ?rows) [0..<n]
      = map (\<lambda>t. map (\<lambda>d. float32 (F d ! (snd d + t))) draws) [0..<n]"
  proof (rule map_cong [OF refl])
    fix t assume "t \<in> set [0..<n]"
    then have t: "t < n" by simp
    have "take n (drop (snd d) (F d)) ! t = F d ! (snd d + t)" if "d \<in> set draws" for d
    proof -
      from fits [OF that] t have "snd d + t < length (F d)" by simp
      then have "drop (snd d) (F d) ! t = F d ! (snd d + t)" by simp
      with t show ?thesis by simp
    qed
    then show "map (\<lambda>row. float32 (row ! t)) ?rows
        = map (\<lambda>d. float32 (F d ! (snd d + t))) draws"
      by (simp add: o_def)
  qed
  ultimately show ?thesis by simp
qed

lemma sample_two_trajectories:
  "TrajectoryReplayBuffer_sample float32_of_int two_trajectories 2 2 (\<lambda>n. n) (\<lambda>k. k)
     = Some (Inr ([[1, 5], [2, 6]], [[11, 15], [12, 16]], [[21, 25], [22, 26]],
                  [[2, 6], [3, 7]], [[0, 0], [1, 0]], [31, 35]))"
proof -
  have n2: "nat 2 = Suc (Suc 0)" by simp
  have d0: "draw_subsequence two_trajectories 2 (\<lambda>n. n) 0 0
      = Some (Inr (([[1, 2], [11, 12], [21, 22], [2, 3], [0, 1]], 31), Suc 0))"
    by (subst draw_subsequence.simps)
       (simp add: two_trajectories_def np_random_choice_def random_randint_def subsequence_def
         trajectory_fields_def py_slice_def)
  have d1: "draw_subsequence two_trajectories 2 (\<lambda>n. n) (Suc 0) (Suc 0)
      = Some (Inr (([[5, 6], [15, 16], [25, 26], [6, 7], [0, 0]], 35), Suc (Suc 0)))"
    by (subst draw_subsequence.simps)
       (simp add: two_trajectories_def np_random_choice_def random_randint_def subsequence_def
         trajectory_fields_def py_slice_def)
  have loop: "sample_loop (nat 2) two_trajectories 2 (\<lambda>n. n) (\<lambda>k. k) 0 0
      = Some (Inr [([[1, 2], [11, 12], [21, 22], [2, 3], [0, 1]], 31),
                   ([[5, 6], [15, 16], [25, 26], [6, 7], [0, 0]], 35)])"
    unfolding n2 by (simp add: d0 d1)
  have up: "[0..<5] = [0, 1, 2, 3, 4::nat]" by (simp add: upt_rec)
  have up2: "[0..<2] = [0, 1::nat]" by (simp add: upt_rec)
  show ?thesis
    unfolding TrajectoryReplayBuffer_sample_def loop
    by (simp add: zip_star_def up up2 stack_time_major_def
        np_stack_def transpose_0_1_def LSTMHidden_cat_def float32_of_int_small)
qed

section \<open>Construction of a TrajectoryReplayBuffer\<close>

text \<open>
  C1. Whatever the capacity and the initializer, constructing a
  \<open>TrajectoryReplayBuffer\<close> raises TypeError and yields no object: the keyword \<open>lock\<close>
  of the base-class call is none of the parameters \<open>capacity\<close>, \<open>initializer\<close>,
  \<open>Value\<close>, \<open>Lock\<close>, so the call fails in binding, before the body creates the slots.
\<close>

theorem C1_constructor_raises_TypeError:
  "''lock'' \<notin> set ReplayBuffer_init_params
   \<and> TrajectoryReplayBuffer_init capacity_arg init_buffer init_lengths = Inl TypeError"
  by (simp add: TrajectoryReplayBuffer_init_def call_ReplayBuffer_init_def
      ReplayBuffer_init_params_def)

section \<open>Circular overwrite\<close>

text \<open>
  C5. With capacity 3 and an empty slot list, pushing A, B, C, D in this order returns
  normally from every push and leaves the slots \<open>[D, B, C]\<close> with offset 1.
\<close>

theorem C5_capacity3_push_ABCD:
  "push_each (ReplayBuffer_init (Some 3) []) [A, B, C, D]
     = (None, \<lparr>capacity = Fin 3, buffer = [D, B, C], offset = 1\<rparr>)"
  by (simp add: ReplayBuffer_init_def ReplayBuffer_push_def ReplayBuffer_size_def
      list_setitem_def)

text \<open>
  C2. With capacity 10, the pushes of lengths 4 and 4 append two slots and leave the
  offset at 2, the slot count. The push of length 5 does not fit (4 + 4 + 5 > 10), so it
  assigns to \<open>self.buffer[2]\<close> of a two-slot list: IndexError. Nothing is overwritten;
  the lengths stay \<open>[4, 4]\<close> (size 8), not \<open>[5, 4]\<close>.
\<close>

theorem C2_third_push_raises_IndexError:
  "trajectory_push_each (TrajectoryReplayBuffer_empty (Fin 10)) [steps 4, steps 4, steps 5]
     = (Some IndexError,
        \<lparr>capacity = Fin 10, buffer = [steps 4, steps 4], offset = 2, lengths = [4, 4]\<rparr>)"
  by (simp add: TrajectoryReplayBuffer_empty_def TrajectoryReplayBuffer_push_def
      TrajectoryReplayBuffer_size_def list_setitem_def steps_def)

text \<open>
  C8. From every state and for every list of items, \<open>extend\<close> ends with the same
  exception status, the same slots and the same offset as pushing the items one by one.
\<close>

theorem C8_extend_is_push_each:
  "ReplayBuffer_extend s xs = push_each s xs"
proof (induction xs arbitrary: s)
  case Nil
  show ?case by simp
next
  case (Cons x xs)
  have "ReplayBuffer_extend s (x # xs)
      = (case ReplayBuffer_push s x of
           (None, s') \<Rightarrow> ReplayBuffer_extend s' xs
         | (Some e, s') \<Rightarrow> (Some e, s'))"
    by (simp add: ReplayBuffer_push_def Let_def split: option.splits cap.splits)
  also have "\<dots> = push_each s (x # xs)"
    by (simp add: Cons.IH split: prod.splits option.splits)
  finally show ?case .
qed

section \<open>Size and capacity\<close>

text \<open>
  C3. The sum of the stored lengths of a \<open>TrajectoryReplayBuffer\<close> does exceed its
  capacity. With capacity 2, starting empty, \<open>push\<close> of one step, \<open>extend\<close> of one item
  and \<open>push\<close> of three steps all return normally: the inherited \<open>extend\<close> appends a slot
  and wraps the offset to 0 without recording a length, and the last \<open>push\<close>, which does
  not fit, overwrites slot 0 and its length without comparing the new sum to the
  capacity. The stored lengths are then \<open>[3]\<close>: size 3, capacity 2.
\<close>

theorem C3_extend_then_push_exceeds_capacity:
  "foldl TrajectoryReplayBuffer_apply (TrajectoryReplayBuffer_empty (Fin 2))
       [Push (steps 1), Extend [steps 1], Push (steps 3)]
     = \<lparr>capacity = Fin 2, buffer = [steps 3, steps 1], offset = 1, lengths = [3]\<rparr>
   \<and> fst (TrajectoryReplayBuffer_push (TrajectoryReplayBuffer_empty (Fin 2)) (steps 1)) = None
   \<and> fst (TrajectoryReplayBuffer_extend
            (foldl TrajectoryReplayBuffer_apply (TrajectoryReplayBuffer_empty (Fin 2))
              [Push (steps 1)]) [steps 1]) = None
   \<and> fst (TrajectoryReplayBuffer_push
            (foldl TrajectoryReplayBuffer_apply (TrajectoryReplayBuffer_empty (Fin 2))
              [Push (steps 1), Extend [steps 1]]) (steps 3)) = None
   \<and> TrajectoryReplayBuffer_size
        (foldl TrajectoryReplayBuffer_apply (TrajectoryReplayBuffer_empty (Fin 2))
          [Push (steps 1), Extend [steps 1], Push (steps 3)]) = 3
   \<and> \<not> le_cap 3 (Fin 2)"
  by (simp add: TrajectoryReplayBuffer_empty_def TrajectoryReplayBuffer_push_def
      TrajectoryReplayBuffer_size_def list_setitem_def steps_def)

text \<open>
  C9. Starting empty, pushes that together do not exceed the capacity all return
  normally, and afterwards \<open>size\<close> is the number of items pushed (\<open>ReplayBuffer\<close>) or the
  sum of the lengths of the trajectories pushed (\<open>TrajectoryReplayBuffer\<close>).
\<close>

theorem C9_size_after_fitting_pushes:
  "(le_cap (length xs) (cap_of_arg capacity_arg) \<longrightarrow>
      fst (push_each (ReplayBuffer_init capacity_arg []) xs) = None
      \<and> ReplayBuffer_size (snd (push_each (ReplayBuffer_init capacity_arg []) xs)) = length xs)
   \<and> (le_cap (sum_list (map (\<lambda>t. length (observation t)) ts)) c \<longrightarrow>
      fst (trajectory_push_each (TrajectoryReplayBuffer_empty c) ts) = None
      \<and> TrajectoryReplayBuffer_size (snd (trajectory_push_each (TrajectoryReplayBuffer_empty c) ts))
          = sum_list (map (\<lambda>t. length (observation t)) ts))"
proof (intro conjI impI)
  assume "le_cap (length xs) (cap_of_arg capacity_arg)"
  then have "le_cap (ReplayBuffer_size (ReplayBuffer_init capacity_arg []) + length xs)
      (capacity (ReplayBuffer_init capacity_arg ([] :: 'a list)))"
    by (simp add: ReplayBuffer_init_def ReplayBuffer_size_def)
  from push_each_fits [OF this]
  show "fst (push_each (ReplayBuffer_init capacity_arg []) xs) = None"
    and "ReplayBuffer_size (snd (push_each (ReplayBuffer_init capacity_arg []) xs)) = length xs"
    by (simp_all add: ReplayBuffer_size_def ReplayBuffer_init_def)
next
  assume "le_cap (sum_list (map (\<lambda>t. length (observation t)) ts)) c"
  then have "le_cap (TrajectoryReplayBuffer_size (TrajectoryReplayBuffer_empty c)
        + sum_list (map (\<lambda>t. length (observation t)) ts))
      (capacity (TrajectoryReplayBuffer_empty c :: ('b, 'c) trajectory_replay_buffer))"
    by (simp add: TrajectoryReplayBuffer_empty_def TrajectoryReplayBuffer_size_def)
  from trajectory_push_each_fits [OF this]
  show "fst (trajectory_push_each (TrajectoryReplayBuffer_empty c) ts) = None"
    and "TrajectoryReplayBuffer_size (snd (trajectory_push_each (TrajectoryReplayBuffer_empty c) ts))
          = sum_list (map (\<lambda>t. length (observation t)) ts)"
    by (simp_all add: TrajectoryReplayBuffer_size_def TrajectoryReplayBuffer_empty_def)
qed

theorem C9_size_after_fitting_pushes_witness:
  "le_cap (length [(), ()]) (cap_of_arg (Some 2))
   \<and> fst (push_each (ReplayBuffer_init (Some 2) []) [(), ()]) = None
   \<and> ReplayBuffer_size (snd (push_each (ReplayBuffer_init (Some 2) []) [(), ()])) = length [(), ()]
   \<and> le_cap (sum_list (map (\<lambda>t. length (observation t)) [steps 4, steps 4])) (Fin 10)
   \<and> fst (trajectory_push_each (TrajectoryReplayBuffer_empty (Fin 10)) [steps 4, steps 4]) = None
   \<and> TrajectoryReplayBuffer_size
        (snd (trajectory_push_each (TrajectoryReplayBuffer_empty (Fin 10)) [steps 4, steps 4]))
       = sum_list (map (\<lambda>t. length (observation t)) [steps 4, steps 4])"
  using C9_size_after_fitting_pushes [of "[(), ()]" "Some 2" "[steps 4, steps 4]" "Fin 10"]
  by (simp add: steps_def)

section \<open>Sampling\<close>

text \<open>
  C10, as stated, fails: line 49 converts what it returns to 32-bit floats. Pushing the
  one-field item \<open>(16777217.0,)\<close> into an empty buffer and sampling it returns
  16777216.0, the nearest 32-bit float, not the value pushed.
\<close>

theorem C10_sample_rounds_to_float32:
  "fst (ReplayBuffer_push (ReplayBuffer_init (Some 3) []) [16777217]) = None
   \<and> ReplayBuffer_size (snd (ReplayBuffer_push (ReplayBuffer_init (Some 3) []) [16777217])) = 1
   \<and> ReplayBuffer_sample float32_of_int scalar_shape
        (snd (ReplayBuffer_push (ReplayBuffer_init (Some 3) []) [16777217])) 1 (constant_draws 0)
       = Inr [[16777216]]
   \<and> ReplayBuffer_sample float32_of_int scalar_shape
        (snd (ReplayBuffer_push (ReplayBuffer_init (Some 3) []) [16777217])) 1 (constant_draws 0)
       \<noteq> Inr [[16777217]]"
proof -
  have "excess_bits 16777217 = Suc (excess_bits 8388608)"
    by (subst excess_bits.simps) simp
  then have "excess_bits 16777217 = Suc 0"
    by (simp add: excess_bits_small)
  then have "float32_of_int 16777217 = 16777216"
    by (simp add: float32_of_int_def Let_def)
  then show ?thesis
    by (simp add: ReplayBuffer_push_def ReplayBuffer_init_def ReplayBuffer_size_def
        ReplayBuffer_sample_def zip_star_single np_stack_fields_def)
qed

text \<open>
  C10, amended. When the push of one item into an empty \<open>ReplayBuffer\<close> has returned,
  the buffer has size 1 and \<open>sample(1)\<close> returns, whatever the random draw, the fields
  of that item in their order, each stacked alone along the batch axis and converted to
  32-bit floats; a field that the conversion leaves as it is comes back unmodified.
\<close>

theorem C10_push_then_sample:
  "fst (ReplayBuffer_push (ReplayBuffer_init capacity_arg []) item) = None \<longrightarrow>
     ReplayBuffer_size (snd (ReplayBuffer_push (ReplayBuffer_init capacity_arg []) item)) = 1
     \<and> ReplayBuffer_sample float32 shape
          (snd (ReplayBuffer_push (ReplayBuffer_init capacity_arg []) item)) 1 randint
         = Inr (map (\<lambda>f. [float32 f]) item)
     \<and> (list_all (\<lambda>f. float32 f = f) item \<longrightarrow>
          ReplayBuffer_sample float32 shape
            (snd (ReplayBuffer_push (ReplayBuffer_init capacity_arg []) item)) 1 randint
           = Inr (map (\<lambda>f. [f]) item))"
proof
  assume ret: "fst (ReplayBuffer_push (ReplayBuffer_init capacity_arg []) item) = None"
  let ?s = "snd (ReplayBuffer_push (ReplayBuffer_init capacity_arg []) item)"
  from ret have b: "buffer ?s = [item]"
    by (auto simp: ReplayBuffer_push_def ReplayBuffer_init_def ReplayBuffer_size_def
        list_setitem_def Let_def split: cap.splits if_splits option.splits)
  then have size: "ReplayBuffer_size ?s = 1" by (simp add: ReplayBuffer_size_def)
  have "first_error (map (\<lambda>group. case np_stack_fields shape group of
                              Inl e \<Rightarrow> Inl e
                            | Inr stacked \<Rightarrow> Inr (map float32 stacked))
            (map (\<lambda>f. [f]) item)) = Inr (map (\<lambda>f. [float32 f]) item)"
    by (induction item) (simp_all add: np_stack_fields_def)
  with b size have sample: "ReplayBuffer_sample float32 shape ?s 1 randint
      = Inr (map (\<lambda>f. [float32 f]) item)"
    by (simp add: ReplayBuffer_sample_def zip_star_single)
  have "map (\<lambda>f. [float32 f]) item = map (\<lambda>f. [f]) item"
    if "list_all (\<lambda>f. float32 f = f) item"
    using that by (simp add: list_all_iff)
  with size sample show "ReplayBuffer_size ?s = 1
     \<and> ReplayBuffer_sample float32 shape ?s 1 randint = Inr (map (\<lambda>f. [float32 f]) item)
     \<and> (list_all (\<lambda>f. float32 f = f) item \<longrightarrow>
          ReplayBuffer_sample float32 shape ?s 1 randint = Inr (map (\<lambda>f. [f]) item))"
    by simp
qed

theorem C10_push_then_sample_witness:
  "fst (ReplayBuffer_push (ReplayBuffer_init (Some 3) []) [5, 7, 1]) = None
   \<and> list_all (\<lambda>f. float32_of_int f = f) [5, 7, 1]
   \<and> ReplayBuffer_size (snd (ReplayBuffer_push (ReplayBuffer_init (Some 3) []) [5, 7, 1])) = 1
   \<and> ReplayBuffer_sample float32_of_int scalar_shape
        (snd (ReplayBuffer_push (ReplayBuffer_init (Some 3) []) [5, 7, 1])) 1 (\<lambda>k. 7)
       = Inr [[5], [7], [1]]"
  using C10_push_then_sample [of "Some 3" "[5, 7, 1]" float32_of_int scalar_shape "\<lambda>k. 7"]
  by (simp add: ReplayBuffer_push_def ReplayBuffer_init_def ReplayBuffer_size_def
      float32_of_int_small)

text \<open>
  C6, as stated, fails in its width: \<open>sample\<close> takes any \<open>step_size\<close>, and \<open>push\<close> reads
  only the length of the first array. With \<open>step_size = -1\<close> on a stored trajectory of
  two steps the call returns the slices \<open>[0 : -1]\<close>, of width 1; and after \<open>push\<close> of a
  trajectory of three steps whose \<open>action\<close> array has two entries, \<open>sample(1, 3)\<close>
  returns an \<open>action\<close> array of two steps beside the others of three.
\<close>

theorem C6_width_differs_from_step_size:
  "TrajectoryReplayBuffer_sample float32_of_int one_trajectory 1 (- 1)
       (constant_draws 0) (constant_draws 0)
     = Some (Inr ([[1]], [[11]], [[21]], [[2]], [[0]], [31]))
   \<and> map length (subsequence (buffer one_trajectory ! 0) 0 (- 1)) = [1, 1, 1, 1, 1]
   \<and> fst (TrajectoryReplayBuffer_push (TrajectoryReplayBuffer_empty (Fin 10)) short_action) = None
   \<and> TrajectoryReplayBuffer_sample float32_of_int
        (snd (TrajectoryReplayBuffer_push (TrajectoryReplayBuffer_empty (Fin 10)) short_action))
        1 3 (constant_draws 0) (constant_draws 0)
     = Some (Inr ([[1], [2], [3]], [[11], [12]], [[21], [22], [23]],
                  [[2], [3], [4]], [[0], [0], [1]], [31]))
   \<and> map length (subsequence short_action 0 3) = [3, 2, 3, 3, 3]"
proof -
  have n1: "nat 1 = Suc 0" by simp
  have up: "[0..<5] = [0, 1, 2, 3, 4::nat]" by (simp add: upt_rec)
  have up3: "[0..<3] = [0, 1, 2::nat]" by (simp add: upt_rec)
  have up2: "[0..<2] = [0, 1::nat]" by (simp add: upt_rec)
  have w1: "subsequence (buffer one_trajectory ! 0) 0 (- 1) = [[1], [11], [21], [2], [0]]"
    by (simp add: one_trajectory_def subsequence_def trajectory_fields_def py_slice_def)
  have d1: "draw_subsequence one_trajectory (- 1) (constant_draws 0) (constant_draws 0 0) 0
      = Some (Inr (([[1], [11], [21], [2], [0]], 31), Suc 0))"
    by (subst draw_subsequence.simps)
       (simp add: one_trajectory_def np_random_choice_def random_randint_def subsequence_def
         trajectory_fields_def py_slice_def constant_draws_def)
  have l1: "sample_loop (nat 1) one_trajectory (- 1) (constant_draws 0) (constant_draws 0) 0 0
      = Some (Inr [([[1], [11], [21], [2], [0]], 31)])"
    unfolding n1 by (simp add: d1)
  have s1: "TrajectoryReplayBuffer_sample float32_of_int one_trajectory 1 (- 1)
       (constant_draws 0) (constant_draws 0)
     = Some (Inr ([[1]], [[11]], [[21]], [[2]], [[0]], [31]))"
    unfolding TrajectoryReplayBuffer_sample_def l1
    by (simp add: zip_star_def up stack_time_major_def np_stack_def transpose_0_1_def
        LSTMHidden_cat_def float32_of_int_small)
  let ?s = "snd (TrajectoryReplayBuffer_push (TrajectoryReplayBuffer_empty (Fin 10)) short_action)"
  have p: "TrajectoryReplayBuffer_push (TrajectoryReplayBuffer_empty (Fin 10)) short_action
      = (None, \<lparr>capacity = Fin 10, buffer = [short_action], offset = 1, lengths = [3]\<rparr>)"
    by (simp add: TrajectoryReplayBuffer_push_def TrajectoryReplayBuffer_empty_def
        TrajectoryReplayBuffer_size_def short_action_def)
  have w2: "subsequence short_action 0 3
      = [[1, 2, 3], [11, 12], [21, 22, 23], [2, 3, 4], [0, 0, 1]]"
    by (simp add: short_action_def subsequence_def trajectory_fields_def py_slice_def)
  have d2: "draw_subsequence ?s 3 (constant_draws 0) (constant_draws 0 0) 0
      = Some (Inr (([[1, 2, 3], [11, 12], [21, 22, 23], [2, 3, 4], [0, 0, 1]], 31), Suc 0))"
    unfolding p
    by (subst draw_subsequence.simps)
       (simp add: np_random_choice_def random_randint_def constant_draws_def w2,
        simp add: short_action_def)
  have l2: "sample_loop (nat 1) ?s 3 (constant_draws 0) (constant_draws 0) 0 0
      = Some (Inr [([[1, 2, 3], [11, 12], [21, 22, 23], [2, 3, 4], [0, 0, 1]], 31)])"
    unfolding n1 by (simp add: d2)
  have s2: "TrajectoryReplayBuffer_sample float32_of_int ?s 1 3
       (constant_draws 0) (constant_draws 0)
     = Some (Inr ([[1], [2], [3]], [[11], [12]], [[21], [22], [23]],
                  [[2], [3], [4]], [[0], [0], [1]], [31]))"
    unfolding TrajectoryReplayBuffer_sample_def l2
    by (simp add: zip_star_def up up2 up3 stack_time_major_def np_stack_def transpose_0_1_def
        LSTMHidden_cat_def float32_of_int_small)
  from s1 w1 p s2 w2 show ?thesis by simp
qed

text \<open>
  C6, amended. Let \<open>sample(batch_size, step_size)\<close> return. Then there are \<open>batch_size\<close>
  draws \<open>(index, offset)\<close>, each a stored trajectory of length \<open>L \<ge> step_size\<close> with
  \<open>0 \<le> offset \<le> L - step_size\<close>; the returned hidden state is the list of the single
  entries \<open>hidden[offset]\<close>, one per draw; and the five returned arrays are the stacked,
  converted and transposed slices \<open>[offset : offset + step_size]\<close> of the drawn
  trajectories. When moreover \<open>step_size \<ge> 0\<close> and the five arrays of every stored
  trajectory have one length, the sub-sequence extracted for a draw has width
  \<open>step_size\<close> in each of its five fields, and each returned array holds, at step \<open>t\<close>
  and batch position \<open>b\<close>, the 32-bit float of step \<open>offset + t\<close> of the \<open>b\<close>-th drawn
  trajectory: it is time-major, of shape \<open>(step_size, batch_size)\<close> before the feature
  axes.
\<close>

theorem C6_sample_subsequences:
  assumes ret: "TrajectoryReplayBuffer_sample float32 s batch_size step_size choice randint
                  = Some (Inr (ob, ac, re, ne, dn, hid))"
  shows "\<exists>draws. int (length draws) = batch_size
      \<and> list_all (taken_from s step_size) draws
      \<and> hid = map (\<lambda>d. hidden (buffer s ! fst d) ! snd d) draws
      \<and> first_error (map (stack_time_major float32) (zip_star
            (map (\<lambda>d. subsequence (buffer s ! fst d) (int (snd d)) step_size) draws)))
          = Inr [ob, ac, re, ne, dn]
      \<and> (0 \<le> step_size \<and> list_all aligned (buffer s) \<longrightarrow>
            list_all (\<lambda>d. list_all (\<lambda>w. length w = nat step_size)
                        (subsequence (buffer s ! fst d) (int (snd d)) step_size)) draws
          \<and> ob = gather float32 observation s step_size draws
          \<and> ac = gather float32 action s step_size draws
          \<and> re = gather float32 reward s step_size draws
          \<and> ne = gather float32 next_observation s step_size draws
          \<and> dn = gather float32 done_flags s step_size draws
          \<and> list_all (time_major_shape (nat step_size) (nat batch_size)) [ob, ac, re, ne, dn])"
proof -
  let ?n = "nat step_size"
  from ret obtain entries where
    loop: "sample_loop (nat batch_size) s step_size choice randint 0 0 = Some (Inr entries)"
    and fe: "first_error (map (stack_time_major float32) (zip_star (map fst entries))) = Inr [ob, ac, re, ne, dn]"
    and hid: "hid = LSTMHidden_cat (map snd entries)"
    by (auto simp: TrajectoryReplayBuffer_sample_def split: option.splits sum.splits list.splits)
  from sample_loop_sound [OF loop] obtain draws where
    len: "length draws = nat batch_size"
    and ent: "entries = map (entry_of s step_size) draws"
    and tf: "list_all (taken_from s step_size) draws"
    by blast
  have nonempty: "draws \<noteq> []"
  proof
    assume "draws = []"
    with ent fe show False by (simp add: zip_star_def)
  qed
  with len have batch: "int (length draws) = batch_size" by (cases "0 \<le> batch_size") auto
  have h: "hid = map (\<lambda>d. hidden (buffer s ! fst d) ! snd d) draws"
    using hid ent by (simp add: LSTMHidden_cat_def entry_of_def o_def)
  have wins: "map fst entries
      = map (\<lambda>d. subsequence (buffer s ! fst d) (int (snd d)) step_size) draws"
    using ent by (simp add: entry_of_def o_def)
  have cond: "list_all (\<lambda>d. list_all (\<lambda>w. length w = nat step_size)
                        (subsequence (buffer s ! fst d) (int (snd d)) step_size)) draws
          \<and> ob = gather float32 observation s step_size draws
          \<and> ac = gather float32 action s step_size draws
          \<and> re = gather float32 reward s step_size draws
          \<and> ne = gather float32 next_observation s step_size draws
          \<and> dn = gather float32 done_flags s step_size draws
          \<and> list_all (time_major_shape (nat step_size) (nat batch_size)) [ob, ac, re, ne, dn]"
    if step0: "0 \<le> step_size" and al: "list_all aligned (buffer s)"
  proof -
    have fit: "snd d + ?n \<le> length (field (buffer s ! fst d))"
      if d: "d \<in> set draws" and f: "field (buffer s ! fst d) \<in> set (trajectory_fields (buffer s ! fst d))"
      for d field
    proof -
      from tf d have t: "taken_from s step_size d" by (simp add: list_all_iff)
      then have ix: "fst d < length (buffer s)" by (simp add: taken_from_def)
      with al have "aligned (buffer s ! fst d)" by (simp add: list_all_length)
      with f have "length (field (buffer s ! fst d)) = length (observation (buffer s ! fst d))"
        by (simp add: aligned_def list_all_iff)
      with t step0 show ?thesis by (simp add: taken_from_def) linarith
    qed
    have win: "subsequence (buffer s ! fst d) (int (snd d)) step_size
        = map (\<lambda>field. take ?n (drop (snd d) field)) (trajectory_fields (buffer s ! fst d))"
      if d: "d \<in> set draws" for d
    proof -
      from tf d have t: "taken_from s step_size d" by (simp add: list_all_iff)
      then have ix: "fst d < length (buffer s)" by (simp add: taken_from_def)
      with al have a: "aligned (buffer s ! fst d)" by (simp add: list_all_length)
      from t have "int (snd d) + step_size \<le> int (length (observation (buffer s ! fst d)))"
        by (simp add: taken_from_def)
      from subsequence_aligned [OF step0 a this] show ?thesis .
    qed
    have widths: "list_all (\<lambda>d. list_all (\<lambda>w. length w = ?n)
                          (subsequence (buffer s ! fst d) (int (snd d)) step_size)) draws"
      unfolding list_all_iff
    proof (intro ballI)
      fix d w assume d: "d \<in> set draws"
        and w: "w \<in> set (subsequence (buffer s ! fst d) (int (snd d)) step_size)"
      from w win [OF d] obtain field where
        f: "field \<in> set (trajectory_fields (buffer s ! fst d))" and w': "w = take ?n (drop (snd d) field)"
        by auto
      from f have "(\<lambda>_. field) (buffer s ! fst d) \<in> set (trajectory_fields (buffer s ! fst d))" by simp
      from fit [of d "\<lambda>_. field", OF d this] w' show "length w = ?n" by simp
    qed
    let ?sl = "\<lambda>field d. take ?n (drop (snd d) (field (buffer s ! fst d)))"
    have W: "map fst entries = map (\<lambda>d. [?sl observation d, ?sl action d, ?sl reward d,
                                          ?sl next_observation d, ?sl done_flags d]) draws"
      unfolding ent
      by (simp add: entry_of_def win trajectory_fields_def cong: map_cong)
    have z: "zip_star (map fst entries)
        = [map (?sl observation) draws, map (?sl action) draws, map (?sl reward) draws,
           map (?sl next_observation) draws, map (?sl done_flags) draws]"
    proof -
      have "zip_star (map fst entries) = map (\<lambda>j. map (\<lambda>item. item ! j) (map fst entries)) [0..<5]"
        using nonempty by (intro zip_star_uniform) (simp_all add: W list_all_iff)
      also have "[0..<5] = [0, 1, 2, 3, 4::nat]" by (simp add: upt_rec)
      finally show ?thesis by (simp add: W o_def)
    qed
    have st: "stack_time_major float32 (map (?sl field) draws) = Inr (gather float32 field s step_size draws)"
      if "\<And>t. field t \<in> set (trajectory_fields t)" for field
      unfolding gather_def
      by (rule stack_windows [OF nonempty, where F = "\<lambda>d. field (buffer s ! fst d)"])
         (rule fit, assumption, rule that)
    have "first_error (map (stack_time_major float32) (zip_star (map fst entries)))
        = Inr [gather float32 observation s step_size draws, gather float32 action s step_size draws,
               gather float32 reward s step_size draws, gather float32 next_observation s step_size draws,
               gather float32 done_flags s step_size draws]"
      unfolding z by (simp add: st trajectory_fields_def)
    with fe have res: "ob = gather float32 observation s step_size draws"
      "ac = gather float32 action s step_size draws" "re = gather float32 reward s step_size draws"
      "ne = gather float32 next_observation s step_size draws" "dn = gather float32 done_flags s step_size draws"
      by simp_all
    have sh: "list_all (time_major_shape (nat step_size) (nat batch_size)) [ob, ac, re, ne, dn]"
      using gather_shape [of step_size draws float32 _ s] len by (simp add: res)
    from widths res sh show ?thesis by blast
  qed
  from fe wins have "first_error (map (stack_time_major float32) (zip_star
            (map (\<lambda>d. subsequence (buffer s ! fst d) (int (snd d)) step_size) draws)))
          = Inr [ob, ac, re, ne, dn]"
    by simp
  with batch tf h cond show ?thesis by blast
qed

theorem C6_sample_subsequences_witness:
  "TrajectoryReplayBuffer_sample float32_of_int two_trajectories 2 2 (\<lambda>n. n) (\<lambda>k. k)
     = Some (Inr ([[1, 5], [2, 6]], [[11, 15], [12, 16]], [[21, 25], [22, 26]],
                  [[2, 6], [3, 7]], [[0, 0], [1, 0]], [31, 35]))
   \<and> (0::int) \<le> 2
   \<and> list_all aligned (buffer two_trajectories)
   \<and> (\<exists>draws. int (length draws) = 2
      \<and> list_all (taken_from two_trajectories 2) draws
      \<and> list_all (\<lambda>d. list_all (\<lambda>w. length w = nat 2)
                        (subsequence (buffer two_trajectories ! fst d) (int (snd d)) 2)) draws
      \<and> [[1, 5], [2, 6]] = gather float32_of_int observation two_trajectories 2 draws
      \<and> [[11, 15], [12, 16]] = gather float32_of_int action two_trajectories 2 draws
      \<and> [[21, 25], [22, 26]] = gather float32_of_int reward two_trajectories 2 draws
      \<and> [[2, 6], [3, 7]] = gather float32_of_int next_observation two_trajectories 2 draws
      \<and> [[0, 0], [1, 0]] = gather float32_of_int done_flags two_trajectories 2 draws
      \<and> [31, 35] = map (\<lambda>d. hidden (buffer two_trajectories ! fst d) ! snd d) draws
      \<and> list_all (time_major_shape (nat 2) (nat 2))
           ([[[1, 5], [2, 6]], [[11, 15], [12, 16]], [[21, 25], [22, 26]],
             [[2, 6], [3, 7]], [[0, 0], [1, 0]]] :: int list list list))"
proof -
  have h1: "TrajectoryReplayBuffer_sample float32_of_int two_trajectories 2 2 (\<lambda>n. n) (\<lambda>k. k)
     = Some (Inr ([[1, 5], [2, 6]], [[11, 15], [12, 16]], [[21, 25], [22, 26]],
                  [[2, 6], [3, 7]], [[0, 0], [1, 0]], [31, 35]))"
    by (rule sample_two_trajectories)
  have h2: "(0::int) \<le> 2" by simp
  have h3: "list_all aligned (buffer two_trajectories)"
    by (simp add: two_trajectories_def aligned_def trajectory_fields_def)
  from C6_sample_subsequences [OF h1] obtain draws where
    d: "int (length draws) = 2 \<and> list_all (taken_from two_trajectories 2) draws
      \<and> [31, 35] = map (\<lambda>d. hidden (buffer two_trajectories ! fst d) ! snd d) draws"
    and imp: "0 \<le> (2::int) \<and> list_all aligned (buffer two_trajectories) \<longrightarrow>
        list_all (\<lambda>d. list_all (\<lambda>w. length w = nat 2)
          (subsequence (buffer two_trajectories ! fst d) (int (snd d)) 2)) draws
      \<and> [[1, 5], [2, 6]] = gather float32_of_int observation two_trajectories 2 draws
      \<and> [[11, 15], [12, 16]] = gather float32_of_int action two_trajectories 2 draws
      \<and> [[21, 25], [22, 26]] = gather float32_of_int reward two_trajectories 2 draws
      \<and> [[2, 6], [3, 7]] = gather float32_of_int next_observation two_trajectories 2 draws
      \<and> [[0, 0], [1, 0]] = gather float32_of_int done_flags two_trajectories 2 draws
      \<and> list_all (time_major_shape (nat 2) (nat 2))
           ([[[1, 5], [2, 6]], [[11, 15], [12, 16]], [[21, 25], [22, 26]],
             [[2, 6], [3, 7]], [[0, 0], [1, 0]]] :: int list list list)"
    by (elim exE conjE) (rule that, intro conjI, assumption+)
  from imp h2 h3 have c: "list_all (\<lambda>d. list_all (\<lambda>w. length w = nat 2)
          (subsequence (buffer two_trajectories ! fst d) (int (snd d)) 2)) draws
      \<and> [[1, 5], [2, 6]] = gather float32_of_int observation two_trajectories 2 draws
      \<and> [[11, 15], [12, 16]] = gather float32_of_int action two_trajectories 2 draws
      \<and> [[21, 25], [22, 26]] = gather float32_of_int reward two_trajectories 2 draws
      \<and> [[2, 6], [3, 7]] = gather float32_of_int next_observation two_trajectories 2 draws
      \<and> [[0, 0], [1, 0]] = gather float32_of_int done_flags two_trajectories 2 draws
      \<and> list_all (time_major_shape (nat 2) (nat 2))
           ([[[1, 5], [2, 6]], [[11, 15], [12, 16]], [[21, 25], [22, 26]],
             [[2, 6], [3, 7]], [[0, 0], [1, 0]]] :: int list list list)"
    by (rule mp [OF _ conjI])
  from d c have "\<exists>draws. int (length draws) = 2
      \<and> list_all (taken_from two_trajectories 2) draws
      \<and> list_all (\<lambda>d. list_all (\<lambda>w. length w = nat 2)
                        (subsequence (buffer two_trajectories ! fst d) (int (snd d)) 2)) draws
      \<and> [[1, 5], [2, 6]] = gather float32_of_int observation two_trajectories 2 draws
      \<and> [[11, 15], [12, 16]] = gather float32_of_int action two_trajectories 2 draws
      \<and> [[21, 25], [22, 26]] = gather float32_of_int reward two_trajectories 2 draws
      \<and> [[2, 6], [3, 7]] = gather float32_of_int next_observation two_trajectories 2 draws
      \<and> [[0, 0], [1, 0]] = gather float32_of_int done_flags two_trajectories 2 draws
      \<and> [31, 35] = map (\<lambda>d. hidden (buffer two_trajectories ! fst d) ! snd d) draws
      \<and> list_all (time_major_shape (nat 2) (nat 2))
           ([[[1, 5], [2, 6]], [[11, 15], [12, 16]], [[21, 25], [22, 26]],
             [[2, 6], [3, 7]], [[0, 0], [1, 0]]] :: int list list list)"
    by (intro exI [of _ draws]) (elim conjE, intro conjI, assumption+)
  with h1 h2 h3 show ?thesis by (intro conjI)
qed

section \<open>Termination of sub-sequence sampling\<close>

text \<open>
  C7, as stated, fails on the empty buffer: every stored trajectory is shorter than
  \<open>step_size\<close> (there is none), \<open>batch_size\<close> is 1, and the call does not loop: the
  weighted draw raises ValueError on an empty population.
\<close>

theorem C7_empty_buffer_raises:
  "(0::int) < 1
   \<and> buffer (TrajectoryReplayBuffer_empty (Fin 10) :: (int, nat) trajectory_replay_buffer) = []
   \<and> TrajectoryReplayBuffer_sample float32_of_int
        (TrajectoryReplayBuffer_empty (Fin 10) :: (int, nat) trajectory_replay_buffer)
        1 1 (constant_draws 0) (constant_draws 0) = Some (Inl ValueError)
   \<and> TrajectoryReplayBuffer_sample float32_of_int
        (TrajectoryReplayBuffer_empty (Fin 10) :: (int, nat) trajectory_replay_buffer)
        1 1 (constant_draws 0) (constant_draws 0) \<noteq> None"
proof -
  have n1: "nat 1 = Suc 0" by simp
  have "draw_subsequence (TrajectoryReplayBuffer_empty (Fin 10) :: (int, nat) trajectory_replay_buffer)
      1 (constant_draws 0) (constant_draws 0 0) 0 = Some (Inl ValueError)"
    by (subst draw_subsequence.simps)
       (simp add: TrajectoryReplayBuffer_empty_def np_random_choice_def)
  then have "TrajectoryReplayBuffer_sample float32_of_int
        (TrajectoryReplayBuffer_empty (Fin 10) :: (int, nat) trajectory_replay_buffer)
        1 1 (constant_draws 0) (constant_draws 0) = Some (Inl ValueError)"
    unfolding TrajectoryReplayBuffer_sample_def n1 by simp
  then show ?thesis by (simp add: TrajectoryReplayBuffer_empty_def)
qed

text \<open>
  C7, amended. Let \<open>batch_size \<ge> 1\<close>, let \<open>lengths\<close> record the lengths of the slots and
  hold at least one step, and let every stored trajectory be shorter than \<open>step_size\<close>:
  then \<open>sample\<close> neither returns nor raises, for every run of the generators. And
  whenever \<open>sample\<close> returns, \<open>batch_size \<ge> 1\<close> and some stored trajectory has length at
  least \<open>step_size\<close>.
\<close>

theorem C7_retry_loop_never_ends:
  "(0 < batch_size \<and> lengths s = map (\<lambda>t. length (observation t)) (buffer s)
      \<and> sum_list (lengths s) \<noteq> 0
      \<and> list_all (\<lambda>t. int (length (observation t)) < step_size) (buffer s)
     \<longrightarrow> TrajectoryReplayBuffer_sample float32 s batch_size step_size choice randint = None)
   \<and> (\<forall>result. TrajectoryReplayBuffer_sample float32 s batch_size step_size choice randint = Some (Inr result)
        \<longrightarrow> 0 < batch_size
          \<and> list_ex (\<lambda>t. step_size \<le> int (length (observation t))) (buffer s))"
proof (intro conjI impI allI)
  assume h: "0 < batch_size \<and> lengths s = map (\<lambda>t. length (observation t)) (buffer s)
      \<and> sum_list (lengths s) \<noteq> 0
      \<and> list_all (\<lambda>t. int (length (observation t)) < step_size) (buffer s)"
  then have cl: "can_loop s step_size" unfolding can_loop_def by blast
  from h obtain i where "nat batch_size = Suc i" by (cases "nat batch_size") auto
  with sample_loop_diverges [OF cl]
  show "TrajectoryReplayBuffer_sample float32 s batch_size step_size choice randint = None"
    by (simp add: TrajectoryReplayBuffer_sample_def)
next
  fix result
  assume ret: "TrajectoryReplayBuffer_sample float32 s batch_size step_size choice randint = Some (Inr result)"
  then obtain entries where
    loop: "sample_loop (nat batch_size) s step_size choice randint 0 0 = Some (Inr entries)"
    and fe: "first_error (map (stack_time_major float32) (zip_star (map fst entries))) \<noteq> Inr []"
    by (auto simp: TrajectoryReplayBuffer_sample_def split: option.splits sum.splits list.splits)
  from sample_loop_sound [OF loop] obtain draws where
    len: "length draws = nat batch_size"
    and ent: "entries = map (entry_of s step_size) draws"
    and tf: "list_all (taken_from s step_size) draws"
    by blast
  have "draws \<noteq> []"
  proof
    assume "draws = []"
    with ent fe show False by (simp add: zip_star_def)
  qed
  then obtain d ds where d: "draws = d # ds" by (cases draws) auto
  with len show "0 < batch_size" by (cases "0 < batch_size") auto
  from d tf have "taken_from s step_size d" by simp
  then have "buffer s ! fst d \<in> set (buffer s)"
    and "step_size \<le> int (length (observation (buffer s ! fst d)))"
    by (simp_all add: taken_from_def)
  then show "list_ex (\<lambda>t. step_size \<le> int (length (observation t))) (buffer s)"
    unfolding list_ex_iff by blast
qed


theorem C7_retry_loop_never_ends_witness:
  "(0::int) < 1
   \<and> lengths two_trajectories = map (\<lambda>t. length (observation t)) (buffer two_trajectories)
   \<and> sum_list (lengths two_trajectories) \<noteq> 0
   \<and> list_all (\<lambda>t. int (length (observation t)) < 5) (buffer two_trajectories)
   \<and> TrajectoryReplayBuffer_sample float32_of_int two_trajectories 1 5 (\<lambda>n. n) (\<lambda>k. k) = None
   \<and> TrajectoryReplayBuffer_sample float32_of_int two_trajectories 2 2 (\<lambda>n. n) (\<lambda>k. k)
       = Some (Inr ([[1, 5], [2, 6]], [[11, 15], [12, 16]], [[21, 25], [22, 26]],
                    [[2, 6], [3, 7]], [[0, 0], [1, 0]], [31, 35]))
   \<and> (0::int) < 2
   \<and> list_ex (\<lambda>t. 2 \<le> int (length (observation t))) (buffer two_trajectories)"
proof -
  have a: "(0::int) < 1
     \<and> lengths two_trajectories = map (\<lambda>t. length (observation t)) (buffer two_trajectories)
     \<and> sum_list (lengths two_trajectories) \<noteq> 0
     \<and> list_all (\<lambda>t. int (length (observation t)) < 5) (buffer two_trajectories)"
    by (simp add: two_trajectories_def)
  have b: "TrajectoryReplayBuffer_sample float32_of_int two_trajectories 2 2 (\<lambda>n. n) (\<lambda>k. k)
       = Some (Inr ([[1, 5], [2, 6]], [[11, 15], [12, 16]], [[21, 25], [22, 26]],
                    [[2, 6], [3, 7]], [[0, 0], [1, 0]], [31, 35]))"
    by (rule sample_two_trajectories)
  from C7_retry_loop_never_ends [of 1 two_trajectories 5 float32_of_int "\<lambda>n. n" "\<lambda>k. k"] a
  have c: "TrajectoryReplayBuffer_sample float32_of_int two_trajectories 1 5 (\<lambda>n. n) (\<lambda>k. k) = None"
    by blast
  from C7_retry_loop_never_ends [of 2 two_trajectories 2 float32_of_int "\<lambda>n. n" "\<lambda>k. k"] b
  have d: "(0::int) < 2
     \<and> list_ex (\<lambda>t. 2 \<le> int (length (observation t))) (buffer two_trajectories)"
    by blast
  from a b c d show ?thesis by (intro conjI) blast+
qed

section \<open>Backpressure\<close>

text \<open>
  C4. After an update step: when \<open>n_total_steps - n_initial_samples\<close> is zero, the step
  ends normally with the configured target as the ratio and signals Resume; a
  ZeroDivisionError never leaves the step; when the denominator is not zero and the
  division yields \<open>q\<close>, the ratio is \<open>q\<close>; and whenever the step ends normally the
  signal is Pause exactly when the ratio is below the target and Resume exactly when it
  is at or above it.
\<close>

theorem C4_flow_control_signal:
  "(n_total_steps - n_initial_samples = 0 \<longrightarrow>
      flow_control_step fq config global_step n_total_steps n_initial_samples
        = Inr (update_sample_ratio config, Resume))
   \<and> flow_control_step fq config global_step n_total_steps n_initial_samples
        \<noteq> Inl ZeroDivisionError
   \<and> (\<forall>q. n_total_steps - n_initial_samples \<noteq> 0
          \<and> fq (n_samples_per_update config * global_step) (n_total_steps - n_initial_samples) = Inr q
        \<longrightarrow> (\<exists>sg. flow_control_step fq config global_step n_total_steps n_initial_samples = Inr (q, sg)))
   \<and> (\<forall>ratio sg. flow_control_step fq config global_step n_total_steps n_initial_samples = Inr (ratio, sg)
        \<longrightarrow> (sg = Pause \<longleftrightarrow> ratio < update_sample_ratio config)
          \<and> (sg = Resume \<longleftrightarrow> update_sample_ratio config \<le> ratio))"
  by (auto simp: flow_control_step_def py_truediv_def split: sum.splits if_splits)

theorem C4_flow_control_signal_witness:
  "(5::int) - 5 = 0
   \<and> flow_control_step exact_quotient \<lparr>n_samples_per_update = 4, update_sample_ratio = 2\<rparr> 3 5 5
       = Inr (2, Resume)
   \<and> (7::int) - 5 \<noteq> 0
   \<and> exact_quotient (4 * 3) (7 - 5) = Inr 6
   \<and> flow_control_step exact_quotient \<lparr>n_samples_per_update = 4, update_sample_ratio = 2\<rparr> 3 7 5
       = Inr (6, Resume)
   \<and> flow_control_step exact_quotient \<lparr>n_samples_per_update = 4, update_sample_ratio = 2\<rparr> 3 25 5
       = Inr (3 / 5, Pause)"
  using C4_flow_control_signal [of 5 5 exact_quotient "\<lparr>n_samples_per_update = 4, update_sample_ratio = 2\<rparr>" 3]
    C4_flow_control_signal [of 7 5 exact_quotient "\<lparr>n_samples_per_update = 4, update_sample_ratio = 2\<rparr>" 3]
  by (simp add: flow_control_step_def py_truediv_def exact_quotient_def)


end
